theory Spec2Isabelle
  imports Main "HOL-Library.Word" "HOL-Library.Monad_Syntax"
begin

unbundle bit_operations_syntax

section \<open>The program state\<close>

text \<open>
  The sketch keeps all of its state in global variables of type \<open>unsigned char\<close>,
  \<open>uint8_t\<close> and \<open>bool\<close>. They are gathered in one record; the two hardware registers
  the core writes are part of it: \<open>OCR2A\<close> (the PWM compare value, the line level) and
  \<open>UDR0\<close> on the transmit side, kept as the list of bytes written to it so far.
  \<open>UDRE0_polls\<close> is the environment of the busy-wait in \<open>sendMIDIByte\<close>: what the
  test \<open>UCSR0A & (1 << UDRE0)\<close> will show on each of its future evaluations.
\<close>

type_synonym byte = "8 word"

record state =
  hourCount :: byte
  minuteCount :: byte
  secondCount :: byte
  frameCount :: byte
  bitCount :: byte
  currentBit :: byte
  lastLevel :: byte
  clockStarted :: bool
  clockPaused :: bool
  transportState :: byte
  mtcQuarterFrame :: "byte list"
  OCR2A :: byte
  UDR0_sent :: "byte list"
  UDRE0_polls :: "bool list"

definition highLevel :: byte where "highLevel = 82"
definition lowLevel :: byte where "lowLevel = 44"
definition groundLevel :: byte where "groundLevel = 63"

definition TRANSPORT_STOPPED :: byte where "TRANSPORT_STOPPED = 0"
definition TRANSPORT_RUNNING :: byte where "TRANSPORT_RUNNING = 1"
definition TRANSPORT_PAUSED :: byte where "TRANSPORT_PAUSED = 2"

definition MIDI_TIME_CODE_QUARTER_FRAME :: byte where
  "MIDI_TIME_CODE_QUARTER_FRAME = 0xF1"

text \<open>
  The state after reset: every global is zero-initialised (\<open>mtcQuarterFrame\<close> has no
  initialiser and static storage), \<open>transportState\<close> is \<open>TRANSPORT_STOPPED\<close>, and the
  AVR clears \<open>OCR2A\<close>. The serial environment is a parameter.
\<close>

definition boot :: "bool list \<Rightarrow> state" where
  "boot polls = \<lparr> hourCount = 0, minuteCount = 0, secondCount = 0, frameCount = 0,
     bitCount = 0, currentBit = 0, lastLevel = 0,
     clockStarted = False, clockPaused = False,
     transportState = TRANSPORT_STOPPED,
     mtcQuarterFrame = replicate 8 0, OCR2A = 0,
     UDR0_sent = [], UDRE0_polls = polls \<rparr>"

section \<open>The quarter-frame receiver\<close>

text \<open>
  \<open>ISR(USART_RX_vect)\<close>, with the byte read from \<open>UDR0\<close> as its argument. The
  comparison is made on \<open>int\<close> in C; both sides are below 256, so it is the comparison of
  the bytes. \<open>messageType\<close> ranges over 0..15 while the array has 8 slots: a store at
  index 8..15 would land outside the array in C, and the list update of the model drops it.
\<close>

definition USART_RX_vect :: "byte \<Rightarrow> state \<Rightarrow> state" where
  "USART_RX_vect midiByte s =
     (if midiByte AND 0xF0 = MIDI_TIME_CODE_QUARTER_FRAME then
        let messageType = midiByte AND 0x0F;
            frameData = drop_bit 4 midiByte;
            q = (mtcQuarterFrame s)[unat messageType := frameData];
            s1 = s\<lparr>mtcQuarterFrame := q\<rparr>
        in if messageType = 7 then
             s1\<lparr>frameCount := (q ! 1 AND 0x0F) + push_bit 4 (q ! 0 AND 0x01),
                secondCount := (q ! 3 AND 0x0F) + push_bit 4 (q ! 2 AND 0x03),
                minuteCount := (q ! 5 AND 0x0F) + push_bit 4 (q ! 4 AND 0x03),
                hourCount := (q ! 7 AND 0x0F) + push_bit 4 (q ! 6 AND 0x01),
                clockStarted := True\<rparr>
           else s1
      else s)"

text \<open>Feeding a sequence of bytes, one interrupt per byte, in order.\<close>

definition receive_bytes :: "byte list \<Rightarrow> state \<Rightarrow> state" where
  "receive_bytes bs s = foldl (\<lambda>t b. USART_RX_vect b t) s bs"

section \<open>The quarter-frame transmitter\<close>

text \<open>
  \<open>sendMIDIByte\<close> busy-waits on the data-register-empty flag and then writes the byte:
  \<^verbatim>\<open>while (!(UCSR0A & (1 << UDRE0))); UDR0 = byte;\<close>
  Each evaluation of the loop test consumes one entry of \<open>UDRE0_polls\<close>. When the
  entries run out before the flag is seen set, the wait has not ended and the result is
  \<open>None\<close>.
\<close>

fun wait_UDRE0 :: "bool list \<Rightarrow> bool list option" where
  "wait_UDRE0 [] = None"
| "wait_UDRE0 (flag # rest) = (if flag then Some rest else wait_UDRE0 rest)"

definition sendMIDIByte :: "byte \<Rightarrow> state \<Rightarrow> state option" where
  "sendMIDIByte b s =
     (case wait_UDRE0 (UDRE0_polls s) of
        None \<Rightarrow> None
      | Some rest \<Rightarrow> Some (s\<lparr>UDRE0_polls := rest, UDR0_sent := UDR0_sent s @ [b]\<rparr>))"

text \<open>
  \<open>sendMTCQuarterFrame\<close>: the four locals are read once, before the first byte goes
  out; sixteen calls of \<open>sendMIDIByte\<close> follow. The shifts are made on \<open>int\<close> in C
  and the results fit a byte.
\<close>

definition sendMTCQuarterFrame :: "state \<Rightarrow> state option" where
  "sendMTCQuarterFrame s =
     (let frameNibble = frameCount s AND 0x0F;
          secondNibble = secondCount s AND 0x0F;
          minuteNibble = minuteCount s AND 0x0F;
          hourNibble = hourCount s AND 0x1F
      in do {
        s \<leftarrow> sendMIDIByte (MIDI_TIME_CODE_QUARTER_FRAME OR 0x00) s;
        s \<leftarrow> sendMIDIByte frameNibble s;
        s \<leftarrow> sendMIDIByte (MIDI_TIME_CODE_QUARTER_FRAME OR 0x01) s;
        s \<leftarrow> sendMIDIByte (drop_bit 4 frameNibble) s;
        s \<leftarrow> sendMIDIByte (MIDI_TIME_CODE_QUARTER_FRAME OR 0x02) s;
        s \<leftarrow> sendMIDIByte secondNibble s;
        s \<leftarrow> sendMIDIByte (MIDI_TIME_CODE_QUARTER_FRAME OR 0x03) s;
        s \<leftarrow> sendMIDIByte (drop_bit 4 secondNibble) s;
        s \<leftarrow> sendMIDIByte (MIDI_TIME_CODE_QUARTER_FRAME OR 0x04) s;
        s \<leftarrow> sendMIDIByte minuteNibble s;
        s \<leftarrow> sendMIDIByte (MIDI_TIME_CODE_QUARTER_FRAME OR 0x05) s;
        s \<leftarrow> sendMIDIByte (drop_bit 4 minuteNibble) s;
        s \<leftarrow> sendMIDIByte (MIDI_TIME_CODE_QUARTER_FRAME OR 0x06) s;
        s \<leftarrow> sendMIDIByte hourNibble s;
        s \<leftarrow> sendMIDIByte (MIDI_TIME_CODE_QUARTER_FRAME OR 0x07) s;
        sendMIDIByte (drop_bit 4 hourNibble) s
      })"

section \<open>The transport controller\<close>

text \<open>
  One pass of \<open>loop()\<close>. \<open>PIND\<close> is read twice, once per button test; the two
  arguments are the outcomes of the tests \<open>!(PIND & (1 << START_BUTTON_PIN))\<close> and
  \<open>!(PIND & (1 << STOP_BUTTON_PIN))\<close>, true when the button is held down. The pass is
  taken without an interrupt in between.
\<close>

definition loop :: "bool \<Rightarrow> bool \<Rightarrow> state \<Rightarrow> state option" where
  "loop startPressed stopPressed s =
     (let s1 = (if startPressed then
                  (if transportState s = TRANSPORT_STOPPED \<or> transportState s = TRANSPORT_PAUSED
                   then s\<lparr>transportState := TRANSPORT_RUNNING,
                          clockStarted := True, clockPaused := False\<rparr>
                   else s)
                else s);
          s2 = (if stopPressed then
                  (if transportState s1 = TRANSPORT_RUNNING
                   then s1\<lparr>transportState := TRANSPORT_PAUSED, clockPaused := True\<rparr>
                   else s1\<lparr>transportState := TRANSPORT_STOPPED,
                           clockStarted := False, clockPaused := False\<rparr>)
                else s1)
      in if transportState s2 = TRANSPORT_RUNNING then
           (if \<not> clockPaused s2 then sendMTCQuarterFrame s2 else Some s2)
         else Some s2)"

section \<open>The line-level encoder\<close>

text \<open>
  \<open>setLTCLevel\<close>. The operands of \<open>>>\<close>, \<open>%\<close>, \<open>-\<close> and \<open><\<close> are promoted to
  \<open>int\<close>; the subtractions are taken only where they are not negative. A right shift of
  a byte value by 8 or more is 0, which \<open>drop_bit\<close> gives as well (for the amounts
  16..31 of the hours range, beyond the 16-bit \<open>int\<close> of the AVR, this is what the
  shift loop of the compiled code leaves).
\<close>

definition setLTCLevel :: "state \<Rightarrow> state" where
  "setLTCLevel s =
     (if bitCount s < 80 then
        let b = (if bitCount s < 32 then
                   drop_bit (unat (bitCount s) mod 4) (frameCount s) AND 1
                 else if bitCount s < 40 then
                   drop_bit (unat (bitCount s) - 32) (secondCount s) AND 1
                 else if bitCount s < 48 then
                   drop_bit (unat (bitCount s) - 40) (minuteCount s) AND 1
                 else
                   drop_bit (unat (bitCount s) - 48) (hourCount s) AND 1);
            s1 = s\<lparr>currentBit := b\<rparr>;
            s2 = (if currentBit s1 = 0 then s1\<lparr>OCR2A := lowLevel\<rparr>
                  else s1\<lparr>OCR2A := highLevel\<rparr>)
        in s2\<lparr>lastLevel := currentBit s2, bitCount := bitCount s2 + 1\<rparr>
      else s\<lparr>bitCount := 0, OCR2A := groundLevel\<rparr>)"

section \<open>The timecode counter\<close>

text \<open>
  \<open>timeUpdate\<close>. The frame rate is the macro \<open>FPS\<close> (30 as shipped, "24, 25, or 30
  FPS depending on your setup") in the sketch with the transport buttons and the global
  \<open>selectedFPS\<close> in the sketch with the menu; it is the first argument here. The test
  \<open>frameCount < FPS - 1\<close> is made on \<open>int\<close>.
\<close>

definition FPS :: byte where "FPS = 30"

definition timeUpdate :: "byte \<Rightarrow> state \<Rightarrow> state" where
  "timeUpdate fps s =
     (if uint (frameCount s) < uint fps - 1 then s\<lparr>frameCount := frameCount s + 1\<rparr>
      else
        let s1 = s\<lparr>frameCount := 0\<rparr> in
        if secondCount s1 < 59 then s1\<lparr>secondCount := secondCount s1 + 1\<rparr>
        else
          let s2 = s1\<lparr>secondCount := 0\<rparr> in
          if minuteCount s2 < 59 then s2\<lparr>minuteCount := minuteCount s2 + 1\<rparr>
          else
            let s3 = s2\<lparr>minuteCount := 0\<rparr> in
            if hourCount s3 < 23 then s3\<lparr>hourCount := hourCount s3 + 1\<rparr>
            else s3\<lparr>hourCount := 0\<rparr>)"

section \<open>The fast tick\<close>

text \<open>\<open>ISR(TIMER1_COMPA_vect)\<close>, one invocation per bit period.\<close>

definition TIMER1_COMPA_vect :: "byte \<Rightarrow> state \<Rightarrow> state" where
  "TIMER1_COMPA_vect fps s =
     (if \<not> clockPaused s \<and> clockStarted s then
        let s1 = setLTCLevel s in
        if bitCount s1 = 80 then timeUpdate fps s1 else s1
      else s)"

section \<open>Auxiliary definitions\<close>

text \<open>\<open>waits n\<close>: what is left of the polls after \<open>n\<close> busy-waits in a row have ended.\<close>

fun waits :: "nat \<Rightarrow> bool list \<Rightarrow> bool list option" where
  "waits 0 polls = Some polls"
| "waits (Suc n) polls =
     (case wait_UDRE0 polls of None \<Rightarrow> None | Some rest \<Rightarrow> waits n rest)"

text \<open>
  The sixteen bytes one call of \<open>sendMTCQuarterFrame\<close> writes, with the constants of
  the tag bytes worked out (\<open>sendMTCQuarterFrame_eq\<close> below proves them equal).
\<close>

definition mtc_bytes :: "state \<Rightarrow> byte list" where
  "mtc_bytes s =
     [0xF1, frameCount s AND 0x0F, 0xF1, 0,
      0xF3, secondCount s AND 0x0F, 0xF3, 0,
      0xF5, minuteCount s AND 0x0F, 0xF5, 0,
      0xF7, hourCount s AND 0x1F, 0xF7, drop_bit 4 (hourCount s AND 0x1F)]"

text \<open>
  Sample states. \<open>after_start\<close> is the state one pass of \<open>loop\<close> with the start button
  held leaves after reset, when the serial output takes the sixteen bytes at once;
  \<open>running_mid_frame\<close> is one fast tick later, \<open>paused_mid_frame\<close> is that state after a
  pass of \<open>loop\<close> with the stop button held.
\<close>

definition after_start :: state where
  "after_start = (boot [])\<lparr>transportState := TRANSPORT_RUNNING, clockStarted := True,
     UDR0_sent := [0xF1, 0, 0xF1, 0, 0xF3, 0, 0xF3, 0, 0xF5, 0, 0xF5, 0, 0xF7, 0, 0xF7, 0]\<rparr>"

definition running_mid_frame :: state where
  "running_mid_frame = after_start\<lparr>bitCount := 1, OCR2A := lowLevel\<rparr>"

definition paused_mid_frame :: state where
  "paused_mid_frame =
     running_mid_frame\<lparr>transportState := TRANSPORT_PAUSED, clockPaused := True\<rparr>"

definition timecode_1_2_3_4 :: state where
  "timecode_1_2_3_4 = (boot (replicate 16 True))\<lparr>hourCount := 1, minuteCount := 2,
     secondCount := 3, frameCount := 4\<rparr>"

definition paused_at_5 :: state where
  "paused_at_5 = (boot [])\<lparr>clockStarted := True, clockPaused := True,
     transportState := TRANSPORT_PAUSED, bitCount := 5, frameCount := 7\<rparr>"

definition ltc_at_50 :: state where
  "ltc_at_50 = (boot [])\<lparr>clockStarted := True, bitCount := 50, hourCount := 4\<rparr>"

text \<open>The four fields of the timecode counter, hours first.\<close>

definition timecode :: "state \<Rightarrow> byte \<times> byte \<times> byte \<times> byte" where
  "timecode s = (hourCount s, minuteCount s, secondCount s, frameCount s)"

definition running_at_79 :: state where
  "running_at_79 = after_start\<lparr>bitCount := 79\<rparr>"

definition running_at_80 :: state where
  "running_at_80 = after_start\<lparr>bitCount := 80\<rparr>"

text \<open>
  The carries of \<open>timeUpdate\<close>, one per nested \<open>else\<close> branch: what it does to the
  hours, to the minutes and to the seconds once the field below has been reset to 0.
\<close>

definition carry_hours :: "state \<Rightarrow> state" where
  "carry_hours s =
     (if hourCount s < 23 then s\<lparr>hourCount := hourCount s + 1\<rparr> else s\<lparr>hourCount := 0\<rparr>)"

definition carry_minutes :: "state \<Rightarrow> state" where
  "carry_minutes s =
     (if minuteCount s < 59 then s\<lparr>minuteCount := minuteCount s + 1\<rparr>
      else carry_hours (s\<lparr>minuteCount := 0\<rparr>))"

definition carry_seconds :: "state \<Rightarrow> state" where
  "carry_seconds s =
     (if secondCount s < 59 then s\<lparr>secondCount := secondCount s + 1\<rparr>
      else carry_minutes (s\<lparr>secondCount := 0\<rparr>))"

text \<open>A timecode with every field in range for the frame rate.\<close>

definition valid_timecode :: "byte \<Rightarrow> state \<Rightarrow> bool" where
  "valid_timecode fps s =
     (unat (frameCount s) < unat fps \<and> unat (secondCount s) < 60
      \<and> unat (minuteCount s) < 60 \<and> unat (hourCount s) < 24)"

definition timecode_23_59_59_29 :: state where
  "timecode_23_59_59_29 = (boot [])\<lparr>hourCount := 23, minuteCount := 59,
     secondCount := 59, frameCount := 29\<rparr>"

definition timecode_0_0_59_5 :: state where
  "timecode_0_0_59_5 = (boot [])\<lparr>secondCount := 59, frameCount := 5\<rparr>"

section \<open>Properties of the receiver\<close>

lemma quarter_frame_guard_never_holds:
  "(b :: byte) AND 0xF0 \<noteq> 0xF1"
proof
  assume h: "b AND 0xF0 = 0xF1"
  have "bit (b AND 0xF0) 0 = bit (0xF1 :: byte) 0"
    by (simp only: h)
  then show False
    by (simp add: bit_simps)
qed

text \<open>
  Claim C3. For every byte \<open>b\<close> and every state, one invocation of the receive handler on
  \<open>b\<close> returns the state it was given: no slot is written, nothing is reassembled and
  \<open>clockStarted\<close> is not set, since \<open>b & 0xF0\<close> has its low four bits cleared and the
  constant \<open>0xF1\<close> has bit 0 set.
\<close>

theorem USART_RX_vect_changes_nothing:
  "USART_RX_vect b s = s"
  by (simp add: USART_RX_vect_def MIDI_TIME_CODE_QUARTER_FRAME_def
      quarter_frame_guard_never_holds)



text \<open>
  Claim C2, at its failing input. The receiver after reset is given the slot-7 message of
  the wire format, the tag byte \<open>0xF7\<close> and the data byte \<open>0x00\<close>: nothing is
  reassembled and \<open>clockStarted\<close> stays false, where the claim has one reassembly and
  \<open>clockStarted\<close> set.
\<close>

theorem slot_7_message_starts_nothing:
  "receive_bytes [0xF7, 0x00] (boot []) = boot []
   \<and> clockStarted (receive_bytes [0xF7, 0x00] (boot [])) = False"
  by (simp add: boot_def receive_bytes_def USART_RX_vect_def MIDI_TIME_CODE_QUARTER_FRAME_def)


section \<open>Properties of the transmitter\<close>

lemma nibble_high_zero: "drop_bit 4 ((w :: byte) AND 0x0F) = 0"
  by (rule bit_eqI) (auto simp add: bit_simps)

lemma tag_bytes:
  "(0xF1 :: byte) OR 0x00 = 0xF1" "(0xF1 :: byte) OR 0x01 = 0xF1"
  "(0xF1 :: byte) OR 0x02 = 0xF3" "(0xF1 :: byte) OR 0x03 = 0xF3"
  "(0xF1 :: byte) OR 0x04 = 0xF5" "(0xF1 :: byte) OR 0x05 = 0xF5"
  "(0xF1 :: byte) OR 0x06 = 0xF7" "(0xF1 :: byte) OR 0x07 = 0xF7"
  by simp_all

lemma sixteen:
  "(16::nat) = Suc (Suc (Suc (Suc (Suc (Suc (Suc (Suc (Suc (Suc (Suc (Suc (Suc (Suc
     (Suc (Suc 0)))))))))))))))"
  by simp

lemma replicate_16: "replicate 16 x = [x,x,x,x,x,x,x,x,x,x,x,x,x,x,x,x]"
  by (simp add: sixteen)

lemma sendMTCQuarterFrame_eq:
  "sendMTCQuarterFrame s =
     (case waits 16 (UDRE0_polls s) of
        None \<Rightarrow> None
      | Some rest \<Rightarrow> Some (s\<lparr>UDRE0_polls := rest, UDR0_sent := UDR0_sent s @ mtc_bytes s\<rparr>))"
  unfolding sendMTCQuarterFrame_def sendMIDIByte_def Let_def sixteen
    MIDI_TIME_CODE_QUARTER_FRAME_def tag_bytes nibble_high_zero mtc_bytes_def
  by (simp split: option.split)

lemma wait_UDRE0_count:
  "0 < count_list polls True \<Longrightarrow>
   \<exists>rest. wait_UDRE0 polls = Some rest \<and> count_list rest True = count_list polls True - 1"
  by (induction polls) auto

lemma waits_count:
  "n \<le> count_list polls True \<Longrightarrow> \<exists>rest. waits n polls = Some rest"
proof (induction n arbitrary: polls)
  case 0
  then show ?case by simp
next
  case (Suc n)
  then have "0 < count_list polls True" by simp
  then obtain rest where r: "wait_UDRE0 polls = Some rest"
    "count_list rest True = count_list polls True - 1"
    using wait_UDRE0_count by blast
  with Suc.prems have "n \<le> count_list rest True" by simp
  then obtain rest' where "waits n rest = Some rest'"
    using Suc.IH by blast
  with r show ?case by simp
qed

lemma sendMTCQuarterFrame_returns:
  assumes "16 \<le> count_list (UDRE0_polls s) True"
  shows "\<exists>rest. sendMTCQuarterFrame s =
           Some (s\<lparr>UDRE0_polls := rest, UDR0_sent := UDR0_sent s @ mtc_bytes s\<rparr>)"
proof -
  obtain rest where "waits 16 (UDRE0_polls s) = Some rest"
    using waits_count [OF assms] by blast
  then have "sendMTCQuarterFrame s =
      Some (s\<lparr>UDRE0_polls := rest, UDR0_sent := UDR0_sent s @ mtc_bytes s\<rparr>)"
    by (simp add: sendMTCQuarterFrame_eq)
  then show ?thesis ..
qed


text \<open>
  Claim C8, at its failing input. With \<open>frameCount = 20\<close> (\<open>0x14\<close>) and a serial
  output that takes every byte at once, one call writes sixteen bytes; the tag bytes carry
  the slot numbers 1, 1, 3, 3, 5, 5, 7, 7 in their low nibble, and the byte sent as the
  high nibble of the frames is 0, where the claim has the tags 0..7 and the high nibble 1.
\<close>

theorem quarter_frame_bytes_at_frame_20:
  "map_option UDR0_sent (sendMTCQuarterFrame ((boot (replicate 16 True))\<lparr>frameCount := 20\<rparr>)) =
     Some [0xF1, 4, 0xF1, 0, 0xF3, 0, 0xF3, 0, 0xF5, 0, 0xF5, 0, 0xF7, 0, 0xF7, 0]"
  by (simp add: sendMTCQuarterFrame_eq boot_def replicate_16 sixteen mtc_bytes_def)



text \<open>
  Claim C1, at its failing input. The sixteen bytes the transmitter writes for the timecode
  01:02:03:04 are fed, in order, to a receiver after reset: every byte is dropped and the
  receiver's counter stays at 00:00:00:00, where the round-trip law has 01:02:03:04.
\<close>

theorem fresh_receiver_ignores_transmitted_timecode:
  "map_option UDR0_sent (sendMTCQuarterFrame timecode_1_2_3_4) =
     Some [0xF1, 4, 0xF1, 0, 0xF3, 3, 0xF3, 0, 0xF5, 2, 0xF5, 0, 0xF7, 1, 0xF7, 0]
   \<and> receive_bytes [0xF1, 4, 0xF1, 0, 0xF3, 3, 0xF3, 0, 0xF5, 2, 0xF5, 0, 0xF7, 1, 0xF7, 0]
       (boot []) = boot []
   \<and> hourCount (boot []) = 0 \<and> minuteCount (boot []) = 0
   \<and> secondCount (boot []) = 0 \<and> frameCount (boot []) = 0"
  by (simp add: sendMTCQuarterFrame_eq timecode_1_2_3_4_def boot_def replicate_16 sixteen
      mtc_bytes_def receive_bytes_def USART_RX_vect_def MIDI_TIME_CODE_QUARTER_FRAME_def)


section \<open>Properties of the transport controller\<close>

lemmas transport_values = TRANSPORT_STOPPED_def TRANSPORT_RUNNING_def TRANSPORT_PAUSED_def

lemma loop_start_from_rest:
  assumes "transportState s = TRANSPORT_STOPPED \<or> transportState s = TRANSPORT_PAUSED"
    and "16 \<le> count_list (UDRE0_polls s) True"
  shows "\<exists>s'. loop True False s = Some s' \<and> transportState s' = TRANSPORT_RUNNING
           \<and> clockStarted s' \<and> \<not> clockPaused s'"
proof -
  let ?r = "s\<lparr>transportState := TRANSPORT_RUNNING, clockStarted := True, clockPaused := False\<rparr>"
  have "16 \<le> count_list (UDRE0_polls ?r) True"
    using assms(2) by simp
  then obtain rest where
    "sendMTCQuarterFrame ?r = Some (?r\<lparr>UDRE0_polls := rest, UDR0_sent := UDR0_sent ?r @ mtc_bytes ?r\<rparr>)"
    using sendMTCQuarterFrame_returns by blast
  moreover have "loop True False s = sendMTCQuarterFrame ?r"
    using assms(1) by (auto simp add: loop_def)
  ultimately show ?thesis by simp
qed

lemma loop_stop_button:
  "loop False True s =
     Some (if transportState s = TRANSPORT_RUNNING
           then s\<lparr>transportState := TRANSPORT_PAUSED, clockPaused := True\<rparr>
           else s\<lparr>transportState := TRANSPORT_STOPPED, clockStarted := False, clockPaused := False\<rparr>)"
  by (simp add: loop_def transport_values)

lemma loop_running_not_stopped:
  assumes "transportState s = TRANSPORT_RUNNING" and "loop startPressed stopPressed s = Some s'"
  shows "transportState s' = (if stopPressed then TRANSPORT_PAUSED else TRANSPORT_RUNNING)"
proof -
  have s1: "(if startPressed then
               (if transportState s = TRANSPORT_STOPPED \<or> transportState s = TRANSPORT_PAUSED
                then s\<lparr>transportState := TRANSPORT_RUNNING,
                       clockStarted := True, clockPaused := False\<rparr>
                else s)
             else s) = s"
    using assms(1) by (simp add: transport_values)
  show ?thesis
  proof (cases stopPressed)
    case True
    then have "loop startPressed stopPressed s =
        Some (s\<lparr>transportState := TRANSPORT_PAUSED, clockPaused := True\<rparr>)"
      unfolding loop_def Let_def s1 using assms(1) by (simp add: transport_values)
    with assms(2) True show ?thesis by auto
  next
    case False
    then have "loop startPressed stopPressed s =
        (if \<not> clockPaused s then sendMTCQuarterFrame s else Some s)"
      unfolding loop_def Let_def s1 using assms(1) by simp
    with assms False show ?thesis
      by (auto simp add: sendMTCQuarterFrame_eq split: if_splits option.splits)
  qed
qed

lemma loop_stopped_without_start:
  assumes "transportState s = TRANSPORT_STOPPED"
  shows "\<exists>s'. loop False stopPressed s = Some s' \<and> transportState s' = TRANSPORT_STOPPED"
  using assms by (simp add: loop_def transport_values)



text \<open>
  Claim C4, as amended. One pass of \<open>loop\<close> takes \<open>Stopped\<close> to \<open>Running\<close> on the start
  button, \<open>Running\<close> to \<open>Paused\<close> on the stop/pause button, \<open>Paused\<close> to \<open>Running\<close> on
  the start button and \<open>Paused\<close> to \<open>Stopped\<close> on the stop/pause button (for the two
  transitions into \<open>Running\<close> the pass ends once the serial output has taken the sixteen
  bytes of the quarter-frame transmitter); no pass takes \<open>Running\<close> to \<open>Stopped\<close>,
  whatever the buttons; and with the start button up \<open>Stopped\<close> stays \<open>Stopped\<close>.
\<close>

theorem transport_step:
  "(transportState s = TRANSPORT_STOPPED \<and> 16 \<le> count_list (UDRE0_polls s) True \<longrightarrow>
      (\<exists>s'. loop True False s = Some s' \<and> transportState s' = TRANSPORT_RUNNING))
   \<and> (transportState s = TRANSPORT_RUNNING \<longrightarrow>
      (\<exists>s'. loop False True s = Some s' \<and> transportState s' = TRANSPORT_PAUSED))
   \<and> (transportState s = TRANSPORT_PAUSED \<and> 16 \<le> count_list (UDRE0_polls s) True \<longrightarrow>
      (\<exists>s'. loop True False s = Some s' \<and> transportState s' = TRANSPORT_RUNNING))
   \<and> (transportState s = TRANSPORT_PAUSED \<longrightarrow>
      (\<exists>s'. loop False True s = Some s' \<and> transportState s' = TRANSPORT_STOPPED))
   \<and> (transportState s = TRANSPORT_RUNNING \<and> loop startPressed stopPressed s = Some t \<longrightarrow>
      transportState t \<noteq> TRANSPORT_STOPPED)
   \<and> (transportState s = TRANSPORT_STOPPED \<longrightarrow>
      (\<exists>s'. loop False stopPressed s = Some s' \<and> transportState s' = TRANSPORT_STOPPED))"
proof -
  have start: "transportState s = TRANSPORT_STOPPED \<or> transportState s = TRANSPORT_PAUSED \<Longrightarrow>
      16 \<le> count_list (UDRE0_polls s) True \<Longrightarrow>
      \<exists>s'. loop True False s = Some s' \<and> transportState s' = TRANSPORT_RUNNING"
    using loop_start_from_rest [of s] by blast
  have pause: "transportState s = TRANSPORT_RUNNING \<Longrightarrow>
      \<exists>s'. loop False True s = Some s' \<and> transportState s' = TRANSPORT_PAUSED"
    by (simp add: loop_stop_button)
  have stop: "transportState s = TRANSPORT_PAUSED \<Longrightarrow>
      \<exists>s'. loop False True s = Some s' \<and> transportState s' = TRANSPORT_STOPPED"
    by (simp add: loop_stop_button transport_values)
  have never: "transportState s = TRANSPORT_RUNNING \<Longrightarrow> loop startPressed stopPressed s = Some t \<Longrightarrow>
      transportState t \<noteq> TRANSPORT_STOPPED"
    using loop_running_not_stopped [of s startPressed stopPressed t]
    by (simp add: transport_values split: if_splits)
  show ?thesis
    using start pause stop never loop_stopped_without_start [of s stopPressed] by blast
qed

theorem transport_step_witness:
  "transportState (boot (replicate 16 True)) = TRANSPORT_STOPPED
   \<and> 16 \<le> count_list (UDRE0_polls (boot (replicate 16 True))) True
   \<and> (\<exists>s'. loop True False (boot (replicate 16 True)) = Some s' \<and> transportState s' = TRANSPORT_RUNNING)
   \<and> (\<exists>s'. loop False True (boot (replicate 16 True)) = Some s' \<and> transportState s' = TRANSPORT_STOPPED)
   \<and> transportState running_mid_frame = TRANSPORT_RUNNING
   \<and> loop False True running_mid_frame = Some paused_mid_frame
   \<and> (\<exists>s'. loop False True running_mid_frame = Some s' \<and> transportState s' = TRANSPORT_PAUSED)
   \<and> transportState paused_mid_frame \<noteq> TRANSPORT_STOPPED
   \<and> transportState (paused_mid_frame\<lparr>UDRE0_polls := replicate 16 True\<rparr>) = TRANSPORT_PAUSED
   \<and> 16 \<le> count_list (UDRE0_polls (paused_mid_frame\<lparr>UDRE0_polls := replicate 16 True\<rparr>)) True
   \<and> (\<exists>s'. loop True False (paused_mid_frame\<lparr>UDRE0_polls := replicate 16 True\<rparr>) = Some s'
         \<and> transportState s' = TRANSPORT_RUNNING)
   \<and> (\<exists>s'. loop False True (paused_mid_frame\<lparr>UDRE0_polls := replicate 16 True\<rparr>) = Some s'
         \<and> transportState s' = TRANSPORT_STOPPED)"
proof -
  have h1: "transportState (boot (replicate 16 True)) = TRANSPORT_STOPPED"
    by (simp add: boot_def)
  have h2: "16 \<le> count_list (UDRE0_polls (boot (replicate 16 True))) True"
    by (simp add: boot_def replicate_16)
  have h3: "transportState running_mid_frame = TRANSPORT_RUNNING"
    by (simp add: running_mid_frame_def after_start_def)
  have h4: "loop False True running_mid_frame = Some paused_mid_frame"
    by (simp add: loop_stop_button h3 paused_mid_frame_def)
  have h5: "transportState (paused_mid_frame\<lparr>UDRE0_polls := replicate 16 True\<rparr>) = TRANSPORT_PAUSED"
    by (simp add: paused_mid_frame_def)
  have h6: "16 \<le> count_list (UDRE0_polls (paused_mid_frame\<lparr>UDRE0_polls := replicate 16 True\<rparr>)) True"
    by (simp add: replicate_16)
  show ?thesis
    using h1 h2 h3 h4 h5 h6
      transport_step [of "boot (replicate 16 True)" False True paused_mid_frame]
      transport_step [of running_mid_frame False True paused_mid_frame]
      transport_step [of "paused_mid_frame\<lparr>UDRE0_polls := replicate 16 True\<rparr>" False True paused_mid_frame]
    by blast
qed

text \<open>
  Claim C4, as stated, fails: from a \<open>Running\<close> state the stop button leads to \<open>Paused\<close>,
  with or without the start button, and without the stop button the state stays
  \<open>Running\<close>; no single pass ends in \<open>Stopped\<close>.
\<close>

theorem running_stop_button_gives_paused:
  "transportState running_mid_frame = TRANSPORT_RUNNING
   \<and> loop False True running_mid_frame = Some paused_mid_frame
   \<and> loop True True running_mid_frame = Some paused_mid_frame
   \<and> transportState paused_mid_frame = TRANSPORT_PAUSED
   \<and> TRANSPORT_PAUSED \<noteq> TRANSPORT_STOPPED
   \<and> map_option transportState (loop False False (running_mid_frame\<lparr>UDRE0_polls := replicate 16 True\<rparr>))
       = Some TRANSPORT_RUNNING
   \<and> map_option transportState (loop True False (running_mid_frame\<lparr>UDRE0_polls := replicate 16 True\<rparr>))
       = Some TRANSPORT_RUNNING"
  by (simp add: loop_def Let_def running_mid_frame_def paused_mid_frame_def after_start_def
      boot_def transport_values sendMTCQuarterFrame_eq replicate_16 sixteen)


section \<open>Properties of the fast tick\<close>

lemma paused_tick_id: "clockPaused s \<Longrightarrow> TIMER1_COMPA_vect fps s = s"
  by (simp add: TIMER1_COMPA_vect_def)

lemma paused_ticks_id: "clockPaused s \<Longrightarrow> (TIMER1_COMPA_vect fps ^^ n) s = s"
  by (induction n) (simp_all add: paused_tick_id)


text \<open>
  Claim C9. While \<open>clockPaused\<close> is true, any number of fast ticks leaves the hours,
  minutes, seconds and frames of the counter and the bit cursor as they were.
\<close>

theorem paused_ticks_freeze:
  assumes "clockPaused s"
  shows "hourCount ((TIMER1_COMPA_vect fps ^^ n) s) = hourCount s
       \<and> minuteCount ((TIMER1_COMPA_vect fps ^^ n) s) = minuteCount s
       \<and> secondCount ((TIMER1_COMPA_vect fps ^^ n) s) = secondCount s
       \<and> frameCount ((TIMER1_COMPA_vect fps ^^ n) s) = frameCount s
       \<and> bitCount ((TIMER1_COMPA_vect fps ^^ n) s) = bitCount s"
  using assms by (simp add: paused_ticks_id)

theorem paused_ticks_freeze_witness:
  "clockPaused paused_at_5
   \<and> hourCount ((TIMER1_COMPA_vect FPS ^^ 3) paused_at_5) = 0
   \<and> minuteCount ((TIMER1_COMPA_vect FPS ^^ 3) paused_at_5) = 0
   \<and> secondCount ((TIMER1_COMPA_vect FPS ^^ 3) paused_at_5) = 0
   \<and> frameCount ((TIMER1_COMPA_vect FPS ^^ 3) paused_at_5) = 7
   \<and> bitCount ((TIMER1_COMPA_vect FPS ^^ 3) paused_at_5) = 5"
  using paused_ticks_freeze [where s = paused_at_5 and fps = FPS and n = 3]
  by (simp add: paused_at_5_def boot_def)


text \<open>
  Claim C10, as stated, fails: start after reset, one fast tick (the bit cell of bit 0 of
  the frames, a 0, at the low level 44), then pause. The clock is paused and \<open>OCR2A\<close> is
  at the low level, not at the ground level 63.
\<close>

theorem pause_leaves_last_level:
  "loop True False (boot (replicate 16 True)) = Some after_start
   \<and> TIMER1_COMPA_vect FPS after_start = running_mid_frame
   \<and> loop False True running_mid_frame = Some paused_mid_frame
   \<and> clockPaused paused_mid_frame
   \<and> transportState paused_mid_frame = TRANSPORT_PAUSED
   \<and> OCR2A paused_mid_frame = lowLevel
   \<and> OCR2A paused_mid_frame \<noteq> groundLevel"
  by (simp add: loop_def Let_def running_mid_frame_def paused_mid_frame_def after_start_def
      boot_def transport_values sendMTCQuarterFrame_eq replicate_16 sixteen mtc_bytes_def
      TIMER1_COMPA_vect_def setLTCLevel_def lowLevel_def groundLevel_def)

text \<open>
  Claim C10, as amended. The pause transition out of a \<open>Running\<close> state writes neither
  the output level, the cursor nor the counter, and no fast tick after it does: while
  paused, \<open>OCR2A\<close> holds the value it had when the pause was taken.
\<close>

theorem pause_freezes_output:
  assumes "transportState s = TRANSPORT_RUNNING"
  shows "\<exists>s'. loop False True s = Some s'
           \<and> clockPaused s' \<and> transportState s' = TRANSPORT_PAUSED
           \<and> OCR2A s' = OCR2A s \<and> bitCount s' = bitCount s
           \<and> hourCount s' = hourCount s \<and> minuteCount s' = minuteCount s
           \<and> secondCount s' = secondCount s \<and> frameCount s' = frameCount s
           \<and> (TIMER1_COMPA_vect fps ^^ n) s' = s'"
  using assms by (simp add: loop_stop_button paused_ticks_id)

theorem pause_freezes_output_witness:
  "transportState running_mid_frame = TRANSPORT_RUNNING
   \<and> (\<exists>s'. loop False True running_mid_frame = Some s'
           \<and> clockPaused s' \<and> transportState s' = TRANSPORT_PAUSED
           \<and> OCR2A s' = lowLevel \<and> bitCount s' = 1
           \<and> hourCount s' = 0 \<and> minuteCount s' = 0
           \<and> secondCount s' = 0 \<and> frameCount s' = 0
           \<and> (TIMER1_COMPA_vect FPS ^^ 100) s' = s')"
  using pause_freezes_output [where s = running_mid_frame and fps = FPS and n = 100]
  by (simp add: running_mid_frame_def after_start_def boot_def)


section \<open>Properties of the encoder\<close>

lemma low_bit_of_shift: "(drop_bit n (w :: byte) AND 1 = 0) = (\<not> bit w n)"
  by (simp add: and_one_eq bit_iff_odd_drop_bit even_iff_mod_2_eq_zero)

lemma byte_less_numeral: "((b :: byte) < 80) = (unat b < 80)" "((b :: byte) < 32) = (unat b < 32)"
  "((b :: byte) < 40) = (unat b < 40)" "((b :: byte) < 48) = (unat b < 48)"
  by (simp_all add: word_less_nat_alt)


lemma timeUpdate_other_fields:
  "OCR2A (timeUpdate fps s) = OCR2A s" "bitCount (timeUpdate fps s) = bitCount s"
  "clockStarted (timeUpdate fps s) = clockStarted s" "clockPaused (timeUpdate fps s) = clockPaused s"
  by (simp_all add: timeUpdate_def Let_def)

lemma tick_level:
  assumes "clockStarted s" and "\<not> clockPaused s"
  shows "OCR2A (TIMER1_COMPA_vect fps s) = OCR2A (setLTCLevel s)"
  using assms by (simp add: TIMER1_COMPA_vect_def Let_def timeUpdate_other_fields)

text \<open>
  Claim C6. With the cursor \<open>c\<close> below 80, \<open>setLTCLevel\<close> writes the high level when the
  selected bit is 1 and the low level when it is 0, the selected bit being bit \<open>c mod 4\<close>
  of the frames for \<open>c\<close> in [0,32), bit \<open>c - 32\<close> of the seconds for \<open>c\<close> in [32,40),
  bit \<open>c - 40\<close> of the minutes for \<open>c\<close> in [40,48) and bit \<open>c - 48\<close> of the hours for
  \<open>c\<close> in [48,80); and the fast tick of a started, unpaused clock leaves the output at
  that level, the one write of the bit cell.
\<close>

theorem bit_cell_level:
  assumes "unat (bitCount s) < 80"
  shows "OCR2A (setLTCLevel s) =
     (if (if unat (bitCount s) < 32 then bit (frameCount s) (unat (bitCount s) mod 4)
          else if unat (bitCount s) < 40 then bit (secondCount s) (unat (bitCount s) - 32)
          else if unat (bitCount s) < 48 then bit (minuteCount s) (unat (bitCount s) - 40)
          else bit (hourCount s) (unat (bitCount s) - 48))
      then highLevel else lowLevel)
   \<and> (clockStarted s \<and> \<not> clockPaused s \<longrightarrow>
        OCR2A (TIMER1_COMPA_vect fps s) = OCR2A (setLTCLevel s))"
  using assms
  by (simp add: tick_level setLTCLevel_def Let_def byte_less_numeral low_bit_of_shift)

theorem bit_cell_level_witness:
  "unat (bitCount ltc_at_50) < 80 \<and> clockStarted ltc_at_50 \<and> \<not> clockPaused ltc_at_50
   \<and> OCR2A (setLTCLevel ltc_at_50) = highLevel
   \<and> OCR2A (TIMER1_COMPA_vect FPS ltc_at_50) = OCR2A (setLTCLevel ltc_at_50)"
proof -
  have h: "unat (bitCount ltc_at_50) < 80" "clockStarted ltc_at_50" "\<not> clockPaused ltc_at_50"
    by (simp_all add: ltc_at_50_def boot_def)
  have b: "bit (hourCount ltc_at_50) (unat (bitCount ltc_at_50) - 48)"
    "\<not> unat (bitCount ltc_at_50) < 48"
    by (simp_all add: ltc_at_50_def boot_def bit_simps)
  from bit_cell_level [OF h(1), of FPS] h b show ?thesis
    by simp
qed

section \<open>The bit cursor and the increment\<close>

lemma setLTCLevel_timecode: "timecode (setLTCLevel s) = timecode s"
  by (simp add: setLTCLevel_def Let_def timecode_def)

lemma setLTCLevel_flags:
  "clockStarted (setLTCLevel s) = clockStarted s" "clockPaused (setLTCLevel s) = clockPaused s"
  by (simp_all add: setLTCLevel_def Let_def)

lemma setLTCLevel_bitCount:
  "bitCount (setLTCLevel s) = (if bitCount s < 80 then bitCount s + 1 else 0)"
  by (simp add: setLTCLevel_def Let_def)

lemma timeUpdate_cong:
  "timecode s = timecode t \<Longrightarrow> timecode (timeUpdate fps s) = timecode (timeUpdate fps t)"
  by (simp add: timeUpdate_def Let_def timecode_def)

lemma byte_succ_neq: "(x :: byte) + 1 \<noteq> x"
  by simp

lemma timeUpdate_changes: "timecode (timeUpdate fps s) \<noteq> timecode s"
proof (cases "uint (frameCount s) < uint fps - 1")
  case True
  then show ?thesis by (simp add: timeUpdate_def timecode_def)
next
  case f: False
  show ?thesis
  proof (cases "frameCount s = 0")
    case False
    with f show ?thesis by (simp add: timeUpdate_def timecode_def Let_def)
  next
    case f0: True
    show ?thesis
    proof (cases "secondCount s < 59")
      case True
      with f show ?thesis by (simp add: timeUpdate_def timecode_def Let_def)
    next
      case False
      then have "secondCount s \<noteq> 0" by auto
      with f False show ?thesis by (simp add: timeUpdate_def timecode_def Let_def)
    qed
  qed
qed

lemma byte_79_80: "((x :: byte) + 1 = 80) = (x = 79)"
proof -
  have "(x + 1 = 80) = (x = 80 - 1)" by (rule eq_diff_eq [symmetric])
  then show ?thesis by simp
qed

lemma tick_running:
  assumes "clockStarted s" "\<not> clockPaused s"
  shows "TIMER1_COMPA_vect fps s =
     (if bitCount s = 79 then timeUpdate fps (setLTCLevel s) else setLTCLevel s)"
proof -
  have "(bitCount (setLTCLevel s) = 80) = (bitCount s = 79)"
  proof (cases "bitCount s < 80")
    case True
    then show ?thesis by (simp add: setLTCLevel_bitCount byte_79_80)
  next
    case False
    then have "bitCount s \<noteq> 79" by auto
    with False show ?thesis by (simp add: setLTCLevel_bitCount)
  qed
  with assms show ?thesis
    by (simp add: TIMER1_COMPA_vect_def Let_def)
qed


lemma byte_unat_79: "unat (x :: byte) = 79 \<Longrightarrow> x = 79"
  by (simp add: word_unat_eq_iff)

lemma tick_below_79:
  assumes "clockStarted s" "\<not> clockPaused s" "unat (bitCount s) < 79"
  shows "unat (bitCount (TIMER1_COMPA_vect fps s)) = unat (bitCount s) + 1
       \<and> timecode (TIMER1_COMPA_vect fps s) = timecode s
       \<and> clockStarted (TIMER1_COMPA_vect fps s) \<and> \<not> clockPaused (TIMER1_COMPA_vect fps s)"
proof -
  from assms(3) have ne: "bitCount s \<noteq> 79" by auto
  from assms(3) have lt: "bitCount s < 80" by (simp add: word_less_nat_alt)
  from assms(3) have "unat (bitCount s + 1) = unat (bitCount s) + 1"
    by (simp add: unat_word_ariths)
  with assms ne lt show ?thesis
    by (simp add: tick_running setLTCLevel_bitCount setLTCLevel_timecode setLTCLevel_flags)
qed

lemma tick_at_79:
  assumes "clockStarted s" "\<not> clockPaused s" "bitCount s = 79"
  shows "bitCount (TIMER1_COMPA_vect fps s) = 80
       \<and> timecode (TIMER1_COMPA_vect fps s) = timecode (timeUpdate fps s)
       \<and> clockStarted (TIMER1_COMPA_vect fps s) \<and> \<not> clockPaused (TIMER1_COMPA_vect fps s)"
  using assms timeUpdate_cong [OF setLTCLevel_timecode, of fps s]
  by (simp add: tick_running timeUpdate_other_fields setLTCLevel_bitCount setLTCLevel_flags)

lemma tick_from_80:
  assumes "clockStarted s" "\<not> clockPaused s" "80 \<le> bitCount s"
  shows "bitCount (TIMER1_COMPA_vect fps s) = 0
       \<and> timecode (TIMER1_COMPA_vect fps s) = timecode s
       \<and> clockStarted (TIMER1_COMPA_vect fps s) \<and> \<not> clockPaused (TIMER1_COMPA_vect fps s)"
proof -
  from assms(3) have "bitCount s \<noteq> 79" by auto
  moreover from assms(3) have "\<not> bitCount s < 80" by auto
  ultimately show ?thesis using assms
    by (simp add: tick_running setLTCLevel_bitCount setLTCLevel_timecode setLTCLevel_flags)
qed

lemma ticks_below_79:
  assumes "clockStarted s" "\<not> clockPaused s"
  shows "unat (bitCount s) + n \<le> 79 \<Longrightarrow>
     unat (bitCount ((TIMER1_COMPA_vect fps ^^ n) s)) = unat (bitCount s) + n
     \<and> timecode ((TIMER1_COMPA_vect fps ^^ n) s) = timecode s
     \<and> clockStarted ((TIMER1_COMPA_vect fps ^^ n) s)
     \<and> \<not> clockPaused ((TIMER1_COMPA_vect fps ^^ n) s)"
proof (induction n)
  case 0
  with assms show ?case by simp
next
  case (Suc n)
  let ?t = "(TIMER1_COMPA_vect fps ^^ n) s"
  from Suc have ih: "unat (bitCount ?t) = unat (bitCount s) + n" "timecode ?t = timecode s"
    "clockStarted ?t" "\<not> clockPaused ?t" by simp_all
  from ih(1) Suc.prems have "unat (bitCount ?t) < 79" by simp
  from tick_below_79 [OF ih(3) ih(4) this, of fps] ih show ?case by simp
qed

lemma ticks_period_81:
  assumes "clockStarted s" "\<not> clockPaused s" "bitCount s \<le> 80"
  shows "bitCount ((TIMER1_COMPA_vect fps ^^ 81) s) = bitCount s
       \<and> timecode ((TIMER1_COMPA_vect fps ^^ 81) s) = timecode (timeUpdate fps s)"
proof (cases "bitCount s = 80")
  case True
  let ?T = "TIMER1_COMPA_vect fps"
  let ?s1 = "?T s"
  let ?s2 = "(?T ^^ 79) ?s1"
  from True have "80 \<le> bitCount s" by simp
  from tick_from_80 [OF assms(1,2) this, of fps]
  have s1: "bitCount ?s1 = 0" "timecode ?s1 = timecode s" "clockStarted ?s1" "\<not> clockPaused ?s1"
    by simp_all
  from s1(1) have "unat (bitCount ?s1) + 79 \<le> 79" by simp
  from ticks_below_79 [OF s1(3) s1(4) this, of fps] s1
  have s2: "unat (bitCount ?s2) = 79" "timecode ?s2 = timecode s" "clockStarted ?s2" "\<not> clockPaused ?s2"
    by simp_all
  from s2(1) have "bitCount ?s2 = 79"
    by (rule byte_unat_79)
  from tick_at_79 [OF s2(3) s2(4) this, of fps] timeUpdate_cong [OF s2(2), of fps]
  have "bitCount (?T ?s2) = 80" "timecode (?T ?s2) = timecode (timeUpdate fps s)"
    by simp_all
  moreover have "(?T ^^ 81) s = ?T ?s2"
  proof -
    have d: "(81::nat) = Suc 79 + 1" by simp
    have a: "(?T ^^ (Suc 79 + 1)) s = (?T ^^ Suc 79) ((?T ^^ 1) s)"
      by (simp only: funpow_add o_apply)
    have b: "(?T ^^ Suc 79) x = ?T ((?T ^^ 79) x)" for x
      by (simp only: funpow.simps o_apply)
    have c: "(?T ^^ 1) s = ?T s" by simp
    show ?thesis by (simp only: d a b c)
  qed
  ultimately show ?thesis using True by simp
next
  case False
  let ?T = "TIMER1_COMPA_vect fps"
  let ?c = "unat (bitCount s)"
  from False assms(3) have "bitCount s < 80" by simp
  then have c: "?c \<le> 79" by (simp add: word_less_nat_alt)
  let ?s1 = "(?T ^^ (79 - ?c)) s"
  let ?s2 = "?T ?s1"
  let ?s3 = "?T ?s2"
  let ?s4 = "(?T ^^ ?c) ?s3"
  from c have "?c + (79 - ?c) \<le> 79" by simp
  from ticks_below_79 [OF assms(1,2) this, of fps] c
  have s1: "unat (bitCount ?s1) = 79" "timecode ?s1 = timecode s" "clockStarted ?s1" "\<not> clockPaused ?s1"
    by simp_all
  from s1(1) have "bitCount ?s1 = 79"
    by (rule byte_unat_79)
  from tick_at_79 [OF s1(3) s1(4) this, of fps] timeUpdate_cong [OF s1(2), of fps]
  have s2: "bitCount ?s2 = 80" "timecode ?s2 = timecode (timeUpdate fps s)"
    "clockStarted ?s2" "\<not> clockPaused ?s2"
    by simp_all
  from s2(1) have "80 \<le> bitCount ?s2" by simp
  from tick_from_80 [OF s2(3) s2(4) this, of fps] s2
  have s3: "bitCount ?s3 = 0" "timecode ?s3 = timecode (timeUpdate fps s)"
    "clockStarted ?s3" "\<not> clockPaused ?s3"
    by simp_all
  from s3(1) c have "unat (bitCount ?s3) + ?c \<le> 79" by simp
  from ticks_below_79 [OF s3(3) s3(4) this, of fps] s3
  have s4: "unat (bitCount ?s4) = ?c" "timecode ?s4 = timecode (timeUpdate fps s)"
    by simp_all
  have "(?T ^^ 81) s = ?s4"
  proof -
    from c have "(81::nat) = ?c + (Suc (Suc 0) + (79 - ?c))" by simp
    then have "(?T ^^ 81) s = (?T ^^ (?c + (Suc (Suc 0) + (79 - ?c)))) s" by simp
    also have "\<dots> = (?T ^^ ?c) ((?T ^^ Suc (Suc 0)) ((?T ^^ (79 - ?c)) s))"
      by (simp only: funpow_add o_apply)
    finally show ?thesis by simp
  qed
  with s4 show ?thesis by (simp add: word_unat_eq_iff)
qed


lemma byte_succ_not_0: "(x :: byte) < 80 \<Longrightarrow> x + 1 \<noteq> 0"
proof
  assume a: "x < 80" and b: "x + 1 = 0"
  from a have "unat x < 80" by (simp add: word_less_nat_alt)
  then have "unat (x + 1) = unat x + 1" by (simp add: unat_word_ariths)
  with b show False by simp
qed

lemma tick_wrap_level:
  assumes "clockStarted s" and "\<not> clockPaused s" and "80 \<le> bitCount s"
  shows "OCR2A (TIMER1_COMPA_vect fps s) = groundLevel"
proof -
  from assms(3) have "\<not> bitCount s < 80" by auto
  then have "OCR2A (setLTCLevel s) = groundLevel"
    by (simp add: setLTCLevel_def)
  with assms(1,2) show ?thesis
    by (simp add: tick_level)
qed

text \<open>
  Claim C5, as amended. While the clock is started and not paused, the fast tick is
  \<open>setLTCLevel\<close>, followed by \<open>timeUpdate\<close> exactly when the cursor stood at 79: the
  cursor then reaches 80 and does not wrap, and this is the only tick that changes the
  timecode. The cursor wraps to 0 on the next tick, the one that finds it at 80 (or
  above); that tick writes the ground level and leaves the timecode alone. The cycle has
  81 ticks: from a cursor of at most 80, 81 ticks bring the cursor back to where it was
  and change the timecode by one \<open>timeUpdate\<close>.
\<close>

theorem fast_tick_cycle:
  assumes "clockStarted s" and "\<not> clockPaused s"
  shows "TIMER1_COMPA_vect fps s =
           (if bitCount s = 79 then timeUpdate fps (setLTCLevel s) else setLTCLevel s)
       \<and> (bitCount (TIMER1_COMPA_vect fps s) = 80) = (bitCount s = 79)
       \<and> (bitCount (TIMER1_COMPA_vect fps s) = 0) = (80 \<le> bitCount s)
       \<and> (timecode (TIMER1_COMPA_vect fps s) \<noteq> timecode s) = (bitCount s = 79)
       \<and> (bitCount s \<le> 80 \<longrightarrow>
            bitCount ((TIMER1_COMPA_vect fps ^^ 81) s) = bitCount s
          \<and> timecode ((TIMER1_COMPA_vect fps ^^ 81) s) = timecode (timeUpdate fps s))
       \<and> (80 \<le> bitCount s \<longrightarrow> OCR2A (TIMER1_COMPA_vect fps s) = groundLevel)"
proof -
  let ?T = "TIMER1_COMPA_vect fps"
  note run = tick_running [OF assms, of fps]
  have reach: "(bitCount (?T s) = 80) = (bitCount s = 79)"
  proof (cases "bitCount s < 80")
    case True
    then show ?thesis
      by (simp add: run timeUpdate_other_fields setLTCLevel_bitCount byte_79_80)
  next
    case False
    then have "bitCount s \<noteq> 79" by auto
    with False show ?thesis
      by (simp add: run setLTCLevel_bitCount)
  qed
  have wrap: "(bitCount (?T s) = 0) = (80 \<le> bitCount s)"
  proof (cases "bitCount s < 80")
    case True
    then have "\<not> 80 \<le> bitCount s" by simp
    with True show ?thesis
      by (simp add: run timeUpdate_other_fields setLTCLevel_bitCount byte_succ_not_0)
  next
    case False
    then have "bitCount s \<noteq> 79" by auto
    with False show ?thesis
      by (simp add: run setLTCLevel_bitCount)
  qed
  have mut: "(timecode (?T s) \<noteq> timecode s) = (bitCount s = 79)"
  proof (cases "bitCount s = 79")
    case True
    have "timecode (timeUpdate fps (setLTCLevel s)) = timecode (timeUpdate fps s)"
      by (rule timeUpdate_cong [OF setLTCLevel_timecode])
    with True show ?thesis
      by (simp add: run timeUpdate_changes)
  next
    case False
    then show ?thesis by (simp add: run setLTCLevel_timecode)
  qed
  have ground: "80 \<le> bitCount s \<Longrightarrow> OCR2A (?T s) = groundLevel"
    by (rule tick_wrap_level [OF assms])
  from run reach wrap mut ground ticks_period_81 [OF assms, of fps] show ?thesis
    by blast
qed

theorem fast_tick_cycle_witness:
  "clockStarted running_at_79 \<and> \<not> clockPaused running_at_79
   \<and> bitCount running_at_79 \<le> 80
   \<and> bitCount (TIMER1_COMPA_vect FPS running_at_79) = 80
   \<and> bitCount (TIMER1_COMPA_vect FPS running_at_79) \<noteq> 0
   \<and> timecode (TIMER1_COMPA_vect FPS running_at_79) \<noteq> timecode running_at_79
   \<and> bitCount ((TIMER1_COMPA_vect FPS ^^ 81) running_at_79) = 79
   \<and> timecode ((TIMER1_COMPA_vect FPS ^^ 81) running_at_79) = (0, 0, 0, 1)
   \<and> clockStarted running_at_80 \<and> \<not> clockPaused running_at_80
   \<and> 80 \<le> bitCount running_at_80
   \<and> bitCount (TIMER1_COMPA_vect FPS running_at_80) = 0
   \<and> OCR2A (TIMER1_COMPA_vect FPS running_at_80) = groundLevel"
proof -
  have h: "clockStarted running_at_79" "\<not> clockPaused running_at_79"
    "bitCount running_at_79 = 79" "bitCount running_at_79 \<le> 80"
    by (simp_all add: running_at_79_def after_start_def boot_def)
  have u: "timecode (timeUpdate FPS running_at_79) = (0, 0, 0, 1)"
    by (simp add: running_at_79_def after_start_def boot_def timeUpdate_def FPS_def timecode_def)
  have g: "clockStarted running_at_80" "\<not> clockPaused running_at_80"
    "80 \<le> bitCount running_at_80"
    by (simp_all add: running_at_80_def after_start_def boot_def)
  from fast_tick_cycle [OF h(1) h(2), of FPS, THEN conjunct2]
    fast_tick_cycle [OF g(1) g(2), of FPS, THEN conjunct2] h u g
  show ?thesis
    by simp
qed

lemma funpow_80_81:
  "(f ^^ 80) x = f ((f ^^ 79) x)" "(f ^^ 81) x = f (f ((f ^^ 79) x))"
proof -
  have "(80::nat) = Suc 79" "(81::nat) = Suc (Suc 79)" by simp_all
  then show "(f ^^ 80) x = f ((f ^^ 79) x)" "(f ^^ 81) x = f (f ((f ^^ 79) x))"
    by (simp_all only: funpow.simps o_apply)
qed

text \<open>
  Claim C5, as stated, fails: counted from the start of the clock, the 80th tick brings
  the cursor to 80, not to 0, and increments the frames; the 81st tick wraps the cursor
  to 0 and increments nothing.
\<close>

theorem increment_before_wrap:
  "bitCount ((TIMER1_COMPA_vect FPS ^^ 79) after_start) = 79
   \<and> timecode ((TIMER1_COMPA_vect FPS ^^ 79) after_start) = (0, 0, 0, 0)
   \<and> bitCount ((TIMER1_COMPA_vect FPS ^^ 80) after_start) = 80
   \<and> timecode ((TIMER1_COMPA_vect FPS ^^ 80) after_start) = (0, 0, 0, 1)
   \<and> bitCount ((TIMER1_COMPA_vect FPS ^^ 81) after_start) = 0
   \<and> timecode ((TIMER1_COMPA_vect FPS ^^ 81) after_start) = (0, 0, 0, 1)"
proof -
  let ?T = "TIMER1_COMPA_vect FPS"
  let ?s = "(?T ^^ 79) after_start"
  have h: "clockStarted after_start" "\<not> clockPaused after_start"
    "unat (bitCount after_start) + 79 \<le> 79" "timecode after_start = (0, 0, 0, 0)"
    by (simp_all add: after_start_def boot_def timecode_def)
  have u: "timecode (timeUpdate FPS after_start) = (0, 0, 0, 1)"
    by (simp add: after_start_def boot_def timeUpdate_def FPS_def timecode_def)
  from ticks_below_79 [OF h(1) h(2) h(3), of FPS] h
  have s: "unat (bitCount ?s) = 79" "timecode ?s = timecode after_start"
    "clockStarted ?s" "\<not> clockPaused ?s"
    by (simp_all add: after_start_def boot_def)
  from s(1) have b: "bitCount ?s = 79" by (rule byte_unat_79)
  from tick_at_79 [OF s(3) s(4) b, of FPS] timeUpdate_cong [OF s(2), of FPS] u
  have t: "bitCount (?T ?s) = 80" "timecode (?T ?s) = (0, 0, 0, 1)"
    "clockStarted (?T ?s)" "\<not> clockPaused (?T ?s)"
    by simp_all
  from t(1) have "80 \<le> bitCount (?T ?s)" by simp
  from tick_from_80 [OF t(3) t(4) this, of FPS] t
  have w: "bitCount (?T (?T ?s)) = 0" "timecode (?T (?T ?s)) = (0, 0, 0, 1)"
    by simp_all
  from b s(2) h(4) t w show ?thesis
    by (simp only: funpow_80_81 simp_thms)
qed

section \<open>Properties of the timecode counter\<close>

lemma timeUpdate_carry:
  "timeUpdate fps s =
     (if uint (frameCount s) < uint fps - 1 then s\<lparr>frameCount := frameCount s + 1\<rparr>
      else carry_seconds (s\<lparr>frameCount := 0\<rparr>))"
  by (simp add: timeUpdate_def carry_seconds_def carry_minutes_def carry_hours_def Let_def)

lemma digit_run:
  fixes step :: "'a \<Rightarrow> 'a" and d :: "'a \<Rightarrow> nat" and put :: "nat \<Rightarrow> 'a \<Rightarrow> 'a"
  assumes step: "\<And>s. d s < B \<Longrightarrow>
        step s = (if d s < B - 1 then put (d s + 1) s else carry (put 0 s))"
    and d_put: "\<And>k s. k < B \<Longrightarrow> d (put k s) = k"
    and put_put: "\<And>k j s. put k (put j s) = put k s"
    and put_d: "\<And>s. put (d s) s = s"
  shows "d s + k < B \<Longrightarrow> (step ^^ k) s = put (d s + k) s"
proof (induction k)
  case 0
  then show ?case by (simp add: put_d)
next
  case (Suc k)
  then have ih: "(step ^^ k) s = put (d s + k) s" by simp
  from Suc.prems have lt: "d s + k < B - 1" "d s + k < B" by simp_all
  have dk: "d (put (d s + k) s) = d s + k"
    by (simp add: d_put lt)
  have "(step ^^ Suc k) s = step (put (d s + k) s)"
    by (simp add: ih)
  also have "\<dots> = put (d s + k + 1) (put (d s + k) s)"
    using lt dk by (simp add: step)
  finally show ?case by (simp add: put_put)
qed

lemma digit_cycle:
  fixes step :: "'a \<Rightarrow> 'a" and d :: "'a \<Rightarrow> nat" and put :: "nat \<Rightarrow> 'a \<Rightarrow> 'a"
  assumes step: "\<And>s. d s < B \<Longrightarrow>
        step s = (if d s < B - 1 then put (d s + 1) s else carry (put 0 s))"
    and d_put: "\<And>k s. k < B \<Longrightarrow> d (put k s) = k"
    and put_put: "\<And>k j s. put k (put j s) = put k s"
    and put_d: "\<And>s. put (d s) s = s"
    and carry_put: "\<And>k s. carry (put k s) = put k (carry s)"
    and lt: "d s < B"
  shows "(step ^^ B) s = carry s"
proof -
  have run: "(step ^^ k) x = put (d x + k) x" if "d x + k < B" for x k
    using that by (rule digit_run [of d B step put carry, rotated -1])
      (simp_all add: step d_put put_put put_d)
  define k1 where "k1 = B - 1 - d s"
  define s2 where "s2 = step ((step ^^ k1) s)"
  from lt have "d s + k1 < B" by (simp add: k1_def)
  from run [OF this] lt have s1: "(step ^^ k1) s = put (B - 1) s"
    by (simp add: k1_def)
  from lt have d1: "d (put (B - 1) s) = B - 1" by (simp add: d_put)
  from lt have "0 < B" by simp
  have "s2 = step (put (B - 1) s)" by (simp only: s2_def s1)
  also from lt d1 have "\<dots> = carry (put 0 (put (B - 1) s))"
    by (simp add: step)
  also have "\<dots> = put 0 (carry s)"
    by (simp add: put_put carry_put)
  finally have s2: "s2 = put 0 (carry s)" .
  with \<open>0 < B\<close> have d2: "d s2 = 0" by (simp add: d_put)
  with lt have "d s2 + d s < B" by simp
  from run [OF this] have "(step ^^ d s) s2 = put (d s) s2"
    by (simp add: d2)
  also have "\<dots> = put (d s) (carry s)" by (simp add: s2 put_put)
  also have "\<dots> = carry s" by (simp add: carry_put [symmetric] put_d)
  finally have e: "(step ^^ d s) s2 = carry s" .
  from lt have "B = d s + (Suc 0 + k1)" by (simp add: k1_def)
  then have "(step ^^ B) s = (step ^^ (d s + (Suc 0 + k1))) s" by simp
  also have "\<dots> = (step ^^ d s) s2"
    by (simp only: funpow_add o_apply funpow.simps id_apply s2_def)
  finally show ?thesis using e by simp
qed


lemma byte_of_nat_small: "k < 256 \<Longrightarrow> unat (of_nat k :: byte) = k"
  by (simp add: unat_of_nat)

lemma byte_less_59: "((x :: byte) < 59) = (unat x < 60 - 1)"
  by (simp add: word_less_nat_alt)

lemma byte_less_23: "((x :: byte) < 23) = (unat x < 24 - 1)"
  by (simp add: word_less_nat_alt)

lemma frame_test: "0 < unat (fps :: byte) \<Longrightarrow>
    (uint (f :: byte) < uint fps - 1) = (unat f < unat fps - 1)"
  unfolding uint_nat by linarith

lemma carry_hours_frame: "carry_hours (s\<lparr>frameCount := x\<rparr>) = (carry_hours s)\<lparr>frameCount := x\<rparr>"
  by (simp add: carry_hours_def)

lemma carry_hours_second: "carry_hours (s\<lparr>secondCount := x\<rparr>) = (carry_hours s)\<lparr>secondCount := x\<rparr>"
  by (simp add: carry_hours_def)

lemma carry_hours_minute: "carry_hours (s\<lparr>minuteCount := x\<rparr>) = (carry_hours s)\<lparr>minuteCount := x\<rparr>"
  by (simp add: carry_hours_def)

lemma carry_minutes_frame:
  "carry_minutes (s\<lparr>frameCount := x\<rparr>) = (carry_minutes s)\<lparr>frameCount := x\<rparr>"
  by (simp add: carry_minutes_def carry_hours_def)

lemma carry_minutes_second:
  "carry_minutes (s\<lparr>secondCount := x\<rparr>) = (carry_minutes s)\<lparr>secondCount := x\<rparr>"
  by (simp add: carry_minutes_def carry_hours_def)

lemma carry_seconds_frame:
  "carry_seconds (s\<lparr>frameCount := x\<rparr>) = (carry_seconds s)\<lparr>frameCount := x\<rparr>"
  by (simp add: carry_seconds_def carry_minutes_def carry_hours_def)

lemma cycle_hours:
  assumes "unat (hourCount s) < 24"
  shows "(carry_hours ^^ 24) s = s"
  using assms
  by (rule digit_cycle [where d = "\<lambda>s. unat (hourCount s)"
        and put = "\<lambda>k s. s\<lparr>hourCount := of_nat k\<rparr>" and carry = "\<lambda>s. s", rotated -1])
    (simp_all add: carry_hours_def byte_less_23 byte_of_nat_small)

lemma cycle_minutes:
  assumes "unat (minuteCount s) < 60"
  shows "(carry_minutes ^^ 60) s = carry_hours s"
  using assms
  by (rule digit_cycle [where d = "\<lambda>s. unat (minuteCount s)"
        and put = "\<lambda>k s. s\<lparr>minuteCount := of_nat k\<rparr>", rotated -1])
    (simp_all add: carry_minutes_def byte_less_59 byte_of_nat_small carry_hours_minute)

lemma cycle_seconds:
  assumes "unat (secondCount s) < 60"
  shows "(carry_seconds ^^ 60) s = carry_minutes s"
  using assms
  by (rule digit_cycle [where d = "\<lambda>s. unat (secondCount s)"
        and put = "\<lambda>k s. s\<lparr>secondCount := of_nat k\<rparr>", rotated -1])
    (simp_all add: carry_seconds_def byte_less_59 byte_of_nat_small carry_minutes_second)

lemma cycle_frames:
  assumes "unat (frameCount s) < unat fps"
  shows "(timeUpdate fps ^^ unat fps) s = carry_seconds s"
proof -
  from assms have pos: "0 < unat fps" by simp
  have "unat fps < 2 ^ LENGTH(8)" by (rule unsigned_less)
  then have small: "k < unat fps \<Longrightarrow> k < 256" for k
    by simp
  show ?thesis
    using assms
    by (rule digit_cycle [where d = "\<lambda>s. unat (frameCount s)"
          and put = "\<lambda>k s. s\<lparr>frameCount := of_nat k\<rparr>", rotated -1])
      (simp_all add: timeUpdate_carry frame_test [OF pos] byte_of_nat_small small
        carry_seconds_frame)
qed


lemma funpow_agree:
  assumes "\<And>x. P x \<Longrightarrow> f x = g x" and "\<And>x. P x \<Longrightarrow> P (g x)" and "P s"
  shows "(f ^^ n) s = (g ^^ n) s \<and> P ((g ^^ n) s)"
  by (induction n) (simp_all add: assms)

lemma carry_fields:
  "frameCount (carry_seconds s) = frameCount s"
  "frameCount (carry_minutes s) = frameCount s"
  "frameCount (carry_hours s) = frameCount s"
  "secondCount (carry_minutes s) = secondCount s"
  "secondCount (carry_hours s) = secondCount s"
  "minuteCount (carry_hours s) = minuteCount s"
  by (simp_all add: carry_seconds_def carry_minutes_def carry_hours_def)

lemma succ_mod_60: "n < 60 \<Longrightarrow> \<not> n < 59 \<Longrightarrow> Suc n mod 60 = 0"
proof -
  assume "n < 60" "\<not> n < 59"
  then have "n = 59" by simp
  then show ?thesis by simp
qed

lemma carry_seconds_value:
  "unat (secondCount s) < 60 \<Longrightarrow>
   unat (secondCount (carry_seconds s)) = (unat (secondCount s) + 1) mod 60"
  by (auto simp add: carry_seconds_def carry_fields byte_less_59 unat_word_ariths succ_mod_60)

lemma carry_minutes_value:
  "unat (minuteCount s) < 60 \<Longrightarrow>
   unat (minuteCount (carry_minutes s)) = (unat (minuteCount s) + 1) mod 60"
  by (auto simp add: carry_minutes_def carry_fields byte_less_59 unat_word_ariths succ_mod_60)

lemma one_minute:
  assumes "unat (frameCount s) < unat fps" and "unat (secondCount s) < 60"
  shows "(timeUpdate fps ^^ (unat fps * 60)) s = carry_minutes s"
proof -
  have "((timeUpdate fps ^^ unat fps) ^^ 60) s = (carry_seconds ^^ 60) s
      \<and> unat (frameCount ((carry_seconds ^^ 60) s)) < unat fps"
  proof (rule funpow_agree [where P = "\<lambda>x. unat (frameCount x) < unat fps"])
    show "(timeUpdate fps ^^ unat fps) x = carry_seconds x"
      if "unat (frameCount x) < unat fps" for x
      using that by (rule cycle_frames)
    show "unat (frameCount (carry_seconds x)) < unat fps"
      if "unat (frameCount x) < unat fps" for x
      using that by (simp add: carry_fields)
    show "unat (frameCount s) < unat fps" by (rule assms(1))
  qed
  then have "((timeUpdate fps ^^ unat fps) ^^ 60) s = carry_minutes s"
    by (simp only: cycle_seconds [OF assms(2)])
  then show ?thesis by (simp only: funpow_mult)
qed

lemma one_hour:
  assumes "unat (frameCount s) < unat fps" and "unat (secondCount s) < 60"
    and "unat (minuteCount s) < 60"
  shows "(timeUpdate fps ^^ (unat fps * 60 * 60)) s = carry_hours s"
proof -
  have "((timeUpdate fps ^^ (unat fps * 60)) ^^ 60) s = (carry_minutes ^^ 60) s
      \<and> (unat (frameCount ((carry_minutes ^^ 60) s)) < unat fps
         \<and> unat (secondCount ((carry_minutes ^^ 60) s)) < 60)"
  proof (rule funpow_agree [where P = "\<lambda>x. unat (frameCount x) < unat fps
          \<and> unat (secondCount x) < 60"])
    show "(timeUpdate fps ^^ (unat fps * 60)) x = carry_minutes x"
      if "unat (frameCount x) < unat fps \<and> unat (secondCount x) < 60" for x
      using that one_minute [of x fps] by blast
    show "unat (frameCount (carry_minutes x)) < unat fps
        \<and> unat (secondCount (carry_minutes x)) < 60"
      if "unat (frameCount x) < unat fps \<and> unat (secondCount x) < 60" for x
      using that by (simp add: carry_fields)
    show "unat (frameCount s) < unat fps \<and> unat (secondCount s) < 60"
      using assms(1,2) by simp
  qed
  then have "((timeUpdate fps ^^ (unat fps * 60)) ^^ 60) s = carry_hours s"
    by (simp only: cycle_minutes [OF assms(3)])
  then show ?thesis by (simp only: funpow_mult)
qed

lemma one_day:
  assumes "valid_timecode fps s"
  shows "(timeUpdate fps ^^ (unat fps * 60 * 60 * 24)) s = s"
proof -
  from assms have v: "unat (frameCount s) < unat fps" "unat (secondCount s) < 60"
    "unat (minuteCount s) < 60" "unat (hourCount s) < 24"
    by (simp_all add: valid_timecode_def)
  have "((timeUpdate fps ^^ (unat fps * 60 * 60)) ^^ 24) s = (carry_hours ^^ 24) s
      \<and> (unat (frameCount ((carry_hours ^^ 24) s)) < unat fps
         \<and> unat (secondCount ((carry_hours ^^ 24) s)) < 60
         \<and> unat (minuteCount ((carry_hours ^^ 24) s)) < 60)"
  proof (rule funpow_agree [where P = "\<lambda>x. unat (frameCount x) < unat fps
          \<and> unat (secondCount x) < 60 \<and> unat (minuteCount x) < 60"])
    show "(timeUpdate fps ^^ (unat fps * 60 * 60)) x = carry_hours x"
      if "unat (frameCount x) < unat fps \<and> unat (secondCount x) < 60
          \<and> unat (minuteCount x) < 60" for x
      using that one_hour [of x fps] by blast
    show "unat (frameCount (carry_hours x)) < unat fps
        \<and> unat (secondCount (carry_hours x)) < 60 \<and> unat (minuteCount (carry_hours x)) < 60"
      if "unat (frameCount x) < unat fps \<and> unat (secondCount x) < 60
          \<and> unat (minuteCount x) < 60" for x
      using that by (simp add: carry_fields)
    show "unat (frameCount s) < unat fps \<and> unat (secondCount s) < 60
        \<and> unat (minuteCount s) < 60"
      using v by simp
  qed
  then have "((timeUpdate fps ^^ (unat fps * 60 * 60)) ^^ 24) s = s"
    by (simp only: cycle_hours [OF v(4)])
  then show ?thesis by (simp only: funpow_mult)
qed

text \<open>
  Claim C7, as amended. For a frame rate of 24, 25 or 30 and a timecode with every field in
  range, \<open>fps\<close> calls of \<open>timeUpdate\<close> leave the frames as they were and advance the
  seconds by one modulo 60; \<open>fps * 60\<close> calls leave the frames and the seconds as they
  were and advance the minutes by one modulo 60; \<open>fps * 3600 * 24\<close> calls give back the
  state they started from.
\<close>

theorem timeUpdate_round_trips:
  assumes "fps \<in> {24, 25, 30}" and "valid_timecode fps s"
  shows "frameCount ((timeUpdate fps ^^ unat fps) s) = frameCount s
       \<and> unat (secondCount ((timeUpdate fps ^^ unat fps) s)) = (unat (secondCount s) + 1) mod 60
       \<and> frameCount ((timeUpdate fps ^^ (unat fps * 60)) s) = frameCount s
       \<and> secondCount ((timeUpdate fps ^^ (unat fps * 60)) s) = secondCount s
       \<and> unat (minuteCount ((timeUpdate fps ^^ (unat fps * 60)) s))
           = (unat (minuteCount s) + 1) mod 60
       \<and> (timeUpdate fps ^^ (unat fps * 3600 * 24)) s = s"
proof -
  from assms(2) have v: "unat (frameCount s) < unat fps" "unat (secondCount s) < 60"
    "unat (minuteCount s) < 60"
    by (simp_all add: valid_timecode_def)
  note sec = cycle_frames [OF v(1)]
  note min = one_minute [OF v(1,2)]
  have d: "unat fps * 3600 * 24 = unat fps * 60 * 60 * 24" by simp
  have c1: "frameCount ((timeUpdate fps ^^ unat fps) s) = frameCount s"
    by (simp only: sec carry_fields)
  have c2: "unat (secondCount ((timeUpdate fps ^^ unat fps) s)) = (unat (secondCount s) + 1) mod 60"
    by (simp only: sec carry_seconds_value [OF v(2)])
  have c3: "frameCount ((timeUpdate fps ^^ (unat fps * 60)) s) = frameCount s"
    by (simp only: min carry_fields)
  have c4: "secondCount ((timeUpdate fps ^^ (unat fps * 60)) s) = secondCount s"
    by (simp only: min carry_fields)
  have c5: "unat (minuteCount ((timeUpdate fps ^^ (unat fps * 60)) s))
      = (unat (minuteCount s) + 1) mod 60"
    by (simp only: min carry_minutes_value [OF v(3)])
  have c6: "(timeUpdate fps ^^ (unat fps * 3600 * 24)) s = s"
    by (simp only: d one_day [OF assms(2)])
  from c1 c2 c3 c4 c5 c6 show ?thesis by blast
qed


theorem timeUpdate_round_trips_witness:
  "(30 :: byte) \<in> {24, 25, 30} \<and> valid_timecode 30 timecode_23_59_59_29
   \<and> frameCount ((timeUpdate 30 ^^ 30) timecode_23_59_59_29) = 29
   \<and> unat (secondCount ((timeUpdate 30 ^^ 30) timecode_23_59_59_29)) = 0
   \<and> frameCount ((timeUpdate 30 ^^ (30 * 60)) timecode_23_59_59_29) = 29
   \<and> secondCount ((timeUpdate 30 ^^ (30 * 60)) timecode_23_59_59_29) = 59
   \<and> unat (minuteCount ((timeUpdate 30 ^^ (30 * 60)) timecode_23_59_59_29)) = 0
   \<and> (timeUpdate 30 ^^ (30 * 3600 * 24)) timecode_23_59_59_29 = timecode_23_59_59_29"
proof -
  have h1: "(30 :: byte) \<in> {24, 25, 30}" by simp
  have h2: "valid_timecode 30 timecode_23_59_59_29"
    by (simp add: valid_timecode_def timecode_23_59_59_29_def boot_def)
  have f: "frameCount timecode_23_59_59_29 = 29" "secondCount timecode_23_59_59_29 = 59"
    "minuteCount timecode_23_59_59_29 = 59"
    by (simp_all add: timecode_23_59_59_29_def boot_def)
  from timeUpdate_round_trips [OF h1 h2] h1 h2 show ?thesis
    by (simp add: f)
qed

text \<open>
  Claim C7, as stated, fails: at 30 frames per second, 30 calls take 00:00:59:05 to
  00:01:00:05. The frames are 5 as before, not reset to 0, and the seconds wrap from 59
  to 0.
\<close>

theorem timeUpdate_keeps_frames:
  "valid_timecode 30 timecode_0_0_59_5
   \<and> frameCount ((timeUpdate 30 ^^ 30) timecode_0_0_59_5) = 5
   \<and> secondCount ((timeUpdate 30 ^^ 30) timecode_0_0_59_5) = 0
   \<and> minuteCount ((timeUpdate 30 ^^ 30) timecode_0_0_59_5) = 1"
proof -
  have v: "valid_timecode 30 timecode_0_0_59_5"
    by (simp add: valid_timecode_def timecode_0_0_59_5_def boot_def)
  have "unat (frameCount timecode_0_0_59_5) < unat (30 :: byte)"
    by (simp add: timecode_0_0_59_5_def boot_def)
  from cycle_frames [OF this]
  have "(timeUpdate 30 ^^ 30) timecode_0_0_59_5 = carry_seconds timecode_0_0_59_5"
    by simp
  with v show ?thesis
    by (simp add: carry_seconds_def carry_minutes_def timecode_0_0_59_5_def boot_def)
qed

end
